theory Spec2Isabelle
  imports Main "HOL-Library.Word"
begin

section \<open>Connection and health monitoring of the RocketMQ plugin (health.go)\<close>

text \<open>
  The two monitors of \<^verbatim>\<open>health.go\<close> are Go structs that point at each other: a
  \<^verbatim>\<open>ConnectionManager\<close> owns a \<^verbatim>\<open>HealthChecker\<close>, which points back at its
  manager and reads the manager's fields in every check cycle. The embedding keeps that
  sharing: objects live in a store indexed by references, a Go pointer is a
  \<open>ref option\<close> (\<open>None\<close> is \<^verbatim>\<open>nil\<close>), and every method takes the store and the
  receiver and returns the new store, or the panic the Go runtime raises.

  The methods are modelled sequentially first. Every method body of the source runs under
  the mutex of its receiver, so a method body is one step; the interleaving of goroutines
  inside a method body is left out there. The two mutexes are added further down for the
  two methods that take both of them, \<^verbatim>\<open>ConnectionManager.Stop\<close> and
  \<^verbatim>\<open>performHealthCheck\<close>. What the code does to
  its collaborators (the metrics sink, the logger, the network, the Go scheduler) is
  appended to a trace of events, in program order. What the environment answers (the
  clock, the outcome of a dial) is a parameter of the method that asks.
\<close>

subsection \<open>Data\<close>

type_synonym ref = nat

text \<open>An instant of \<^verbatim>\<open>time.Time\<close>, and durations in seconds.\<close>

type_synonym time = nat

text \<open>The text of a Go \<^verbatim>\<open>error\<close>.\<close>

type_synonym err = string

text \<open>
  The type \<^verbatim>\<open>Metrics\<close> is declared outside the reviewed sources; the code only holds a
  pointer to it and calls five methods on it, none of which returns a value. The pointer
  is kept as an opaque value and each call is an event carrying its receiver.
\<close>

type_synonym metrics_ptr = "ref option"

text \<open>
  A \<^verbatim>\<open>chan struct{}\<close> on which nothing is ever sent: the zero value \<^verbatim>\<open>nil\<close>, an open
  channel (a receive blocks), or a closed channel (a receive succeeds at once).
\<close>

datatype chan = NilChan | Open | Closed

text \<open>A \<^verbatim>\<open>time.Ticker\<close>: its period in seconds and whether \<^verbatim>\<open>Stop\<close> was called on it.\<close>

datatype ticker = Ticker (period: nat) (stopped: bool)

datatype panic = NilDereference | CloseOfNilChannel

datatype event =
    IncrementReconnectionCount metrics_ptr
  | IncrementHealthCheckCount metrics_ptr
  | UpdateLastHealthCheck metrics_ptr
  | SetHealthy metrics_ptr bool
  | IncrementHealthCheckErrors metrics_ptr
  | LogInfo string
  | LogDebug string "string list" err
  | LogWarn string "64 word" bool
  | DialTimeout string string nat
  | ConnClose string
  | Go_ConnectionManager_run ref
  | Go_HealthChecker_run ref

record ConnectionManager =
  cm_metrics :: metrics_ptr
  healthChecker :: "ref option"
  nameServerAddrs :: "string list"
  connected :: bool
  cm_stopCh :: chan

record HealthChecker =
  hc_metrics :: metrics_ptr
  connMgr :: "ref option"
  healthy :: bool
  lastCheck :: time
  errorCount :: "64 word"
  hc_stopCh :: chan
  checkTicker :: "ticker option"

record world =
  cms :: "ref \<rightharpoonup> ConnectionManager"
  hcs :: "ref \<rightharpoonup> HealthChecker"
  trace :: "event list"
  next_ref :: ref

definition empty_world :: world where
  "empty_world = \<lparr>cms = Map.empty, hcs = Map.empty, trace = [], next_ref = 0\<rparr>"

definition nameServerProbeTimeout :: nat where
  "nameServerProbeTimeout = 3"

subsection \<open>Store access\<close>

text \<open>
  Following a pointer gives the object and its address; \<open>None\<close> stands for the nil
  pointer dereference of the Go runtime.
\<close>

definition load_cm :: "world \<Rightarrow> ref option \<Rightarrow> (ref \<times> ConnectionManager) option" where
  "load_cm w r = (case r of None \<Rightarrow> None | Some c \<Rightarrow> map_option (Pair c) (cms w c))"

definition load_hc :: "world \<Rightarrow> ref option \<Rightarrow> (ref \<times> HealthChecker) option" where
  "load_hc w r = (case r of None \<Rightarrow> None | Some h \<Rightarrow> map_option (Pair h) (hcs w h))"

definition store_cm :: "ref \<Rightarrow> ConnectionManager \<Rightarrow> world \<Rightarrow> world" where
  "store_cm c cm w = w\<lparr>cms := (cms w)(c \<mapsto> cm)\<rparr>"

definition store_hc :: "ref \<Rightarrow> HealthChecker \<Rightarrow> world \<Rightarrow> world" where
  "store_hc h hc w = w\<lparr>hcs := (hcs w)(h \<mapsto> hc)\<rparr>"

definition emit :: "event list \<Rightarrow> world \<Rightarrow> world" where
  "emit evs w = w\<lparr>trace := trace w @ evs\<rparr>"

subsection \<open>Constructors\<close>

text \<open>
  \<^verbatim>\<open>NewHealthChecker\<close>: the fields not named in the struct literal (\<^verbatim>\<open>healthy\<close>,
  \<^verbatim>\<open>errorCount\<close>) have Go's zero values; \<^verbatim>\<open>lastCheck\<close> is the clock's reading.
\<close>

definition NewHealthChecker :: "time \<Rightarrow> world \<Rightarrow> metrics_ptr \<Rightarrow> ref option \<Rightarrow> world \<times> ref" where
  "NewHealthChecker now w metrics cmr =
     (let h = next_ref w;
          hc = \<lparr>hc_metrics = metrics, connMgr = cmr, healthy = False, lastCheck = now,
                errorCount = 0, hc_stopCh = Open, checkTicker = Some (Ticker 10 False)\<rparr>
      in (store_hc h hc (w\<lparr>next_ref := Suc h\<rparr>), h))"

definition NewConnectionManager :: "time \<Rightarrow> world \<Rightarrow> metrics_ptr \<Rightarrow> string list \<Rightarrow> world \<times> ref" where
  "NewConnectionManager now w metrics addrs =
     (let c = next_ref w;
          cm = \<lparr>cm_metrics = metrics, healthChecker = None, nameServerAddrs = addrs,
                connected = False, cm_stopCh = Open\<rparr>;
          (w', h) = NewHealthChecker now (store_cm c cm (w\<lparr>next_ref := Suc c\<rparr>)) metrics (Some c)
      in (store_cm c (cm\<lparr>healthChecker := Some h\<rparr>) w', c))"

subsection \<open>HealthChecker\<close>

text \<open>
  \<^verbatim>\<open>Start\<close> only spawns the goroutine of \<^verbatim>\<open>run\<close>, which is an event; a nil
  receiver makes that goroutine panic at its first field access.
\<close>

definition HealthChecker_Start :: "world \<Rightarrow> ref option \<Rightarrow> panic + world" where
  "HealthChecker_Start w r =
     (case load_hc w r of
        None \<Rightarrow> Inl NilDereference
      | Some (h, hc) \<Rightarrow> Inr (emit [Go_HealthChecker_run h] w))"

definition HealthChecker_Stop :: "world \<Rightarrow> ref option \<Rightarrow> panic + world" where
  "HealthChecker_Stop w r =
     (case load_hc w r of
        None \<Rightarrow> Inl NilDereference
      | Some (h, hc) \<Rightarrow>
          (case hc_stopCh hc of
             Closed \<Rightarrow> Inr w
           | NilChan \<Rightarrow> Inl CloseOfNilChannel
           | Open \<Rightarrow>
               (case checkTicker hc of
                  None \<Rightarrow> Inl NilDereference
                | Some t \<Rightarrow>
                    Inr (store_hc h (hc\<lparr>hc_stopCh := Closed,
                                       checkTicker := Some (Ticker (period t) True)\<rparr>) w))))"

definition IsHealthy :: "world \<Rightarrow> ref option \<Rightarrow> panic + bool" where
  "IsHealthy w r =
     (case load_hc w r of None \<Rightarrow> Inl NilDereference | Some (h, hc) \<Rightarrow> Inr (healthy hc))"

definition GetLastCheck :: "world \<Rightarrow> ref option \<Rightarrow> panic + time" where
  "GetLastCheck w r =
     (case load_hc w r of None \<Rightarrow> Inl NilDereference | Some (h, hc) \<Rightarrow> Inr (lastCheck hc))"

text \<open>\<^verbatim>\<open>int(hc.errorCount)\<close>, with Go's \<^verbatim>\<open>int\<close> of 64 bits.\<close>

definition GetErrorCount :: "world \<Rightarrow> ref option \<Rightarrow> panic + int" where
  "GetErrorCount w r =
     (case load_hc w r of None \<Rightarrow> Inl NilDereference | Some (h, hc) \<Rightarrow> Inr (sint (errorCount hc)))"

subsection \<open>ConnectionManager\<close>

definition ConnectionManager_Start :: "world \<Rightarrow> ref option \<Rightarrow> panic + world" where
  "ConnectionManager_Start w r =
     (case load_cm w r of
        None \<Rightarrow> Inl NilDereference
      | Some (c, cm) \<Rightarrow> Inr (emit [Go_ConnectionManager_run c] w))"

definition ConnectionManager_Stop :: "world \<Rightarrow> ref option \<Rightarrow> panic + world" where
  "ConnectionManager_Stop w r =
     (case load_cm w r of
        None \<Rightarrow> Inl NilDereference
      | Some (c, cm) \<Rightarrow>
          (case cm_stopCh cm of
             Closed \<Rightarrow> Inr w
           | NilChan \<Rightarrow> Inl CloseOfNilChannel
           | Open \<Rightarrow>
               HealthChecker_Stop (store_cm c (cm\<lparr>cm_stopCh := Closed\<rparr>) w) (healthChecker cm)))"

definition IsConnected :: "world \<Rightarrow> ref option \<Rightarrow> panic + bool" where
  "IsConnected w r =
     (case load_cm w r of None \<Rightarrow> Inl NilDereference | Some (c, cm) \<Rightarrow> Inr (connected cm))"

definition GetHealthChecker :: "world \<Rightarrow> ref option \<Rightarrow> panic + ref option" where
  "GetHealthChecker w r =
     (case load_cm w r of None \<Rightarrow> Inl NilDereference | Some (c, cm) \<Rightarrow> Inr (healthChecker cm))"

definition ForceReconnect :: "world \<Rightarrow> ref option \<Rightarrow> panic + world" where
  "ForceReconnect w r =
     (case load_cm w r of
        None \<Rightarrow> Inl NilDereference
      | Some (c, cm) \<Rightarrow>
          Inr (emit [IncrementReconnectionCount (cm_metrics cm), LogInfo ''Forced reconnection'']
                 (store_cm c (cm\<lparr>connected := False\<rparr>) w)))"

text \<open>
  The \<^verbatim>\<open>for ... range\<close> loop of \<^verbatim>\<open>checkConnection\<close>. The network is a parameter:
  \<open>dial i addr\<close> is the error of the \<open>i\<close>-th dial of the cycle, to \<open>addr\<close>, or
  \<open>None\<close> when the connection was made. The result is the value the loop leaves in
  \<^verbatim>\<open>cm.connected\<close> and the events it caused; \<open>all\<close> is the whole address list, which the
  debug entry logs.
\<close>

fun probe :: "(nat \<Rightarrow> string \<Rightarrow> err option) \<Rightarrow> string list \<Rightarrow> nat \<Rightarrow> string list \<Rightarrow> bool \<times> event list" where
  "probe dial all i [] = (False, [])"
| "probe dial all i (addr # rest) =
     (case dial i addr of
        None \<Rightarrow> (True, [DialTimeout ''tcp'' addr nameServerProbeTimeout, ConnClose addr])
      | Some e \<Rightarrow>
          (let (b, evs) = probe dial all (Suc i) rest
           in (b, DialTimeout ''tcp'' addr nameServerProbeTimeout
                  # LogDebug ''RocketMQ NameServer probe failed'' all e # evs)))"

definition checkConnection :: "(nat \<Rightarrow> string \<Rightarrow> err option) \<Rightarrow> world \<Rightarrow> ref option \<Rightarrow> panic + world" where
  "checkConnection dial w r =
     (case load_cm w r of
        None \<Rightarrow> Inl NilDereference
      | Some (c, cm) \<Rightarrow>
          if length (nameServerAddrs cm) = 0 then Inr (store_cm c (cm\<lparr>connected := True\<rparr>) w)
          else
            (let (b, evs) = probe dial (nameServerAddrs cm) 0 (nameServerAddrs cm)
             in Inr (store_cm c (cm\<lparr>connected := b\<rparr>) (emit evs w))))"

subsection \<open>The health check cycle\<close>

text \<open>
  The condition \<^verbatim>\<open>hc.connMgr != nil && len(hc.connMgr.nameServerAddrs) > 0\<close>; the field
  is read through the pointer, without the manager's lock.
\<close>

definition has_nameServerAddrs :: "world \<Rightarrow> HealthChecker \<Rightarrow> panic + bool" where
  "has_nameServerAddrs w hc =
     (case connMgr hc of
        None \<Rightarrow> Inr False
      | Some c \<Rightarrow>
          (case cms w c of
             None \<Rightarrow> Inl NilDereference
           | Some cm \<Rightarrow> Inr (length (nameServerAddrs cm) > 0)))"

text \<open>The argument of the warning: \<^verbatim>\<open>hc.connMgr != nil && hc.connMgr.IsConnected()\<close>.\<close>

definition connMgr_connected :: "world \<Rightarrow> HealthChecker \<Rightarrow> panic + bool" where
  "connMgr_connected w hc =
     (if connMgr hc \<noteq> None then IsConnected w (connMgr hc) else Inr False)"

text \<open>Lines 212 to 218: the gauge, and the error counter and the warning when unhealthy.\<close>

definition report :: "world \<Rightarrow> ref \<Rightarrow> HealthChecker \<Rightarrow> panic + world" where
  "report w h hc =
     (if healthy hc then Inr (store_hc h hc (emit [SetHealthy (hc_metrics hc) True] w))
      else
        (case connMgr_connected w hc of
           Inl p \<Rightarrow> Inl p
         | Inr c \<Rightarrow>
             Inr (store_hc h hc
                    (emit [SetHealthy (hc_metrics hc) False,
                           IncrementHealthCheckErrors (hc_metrics hc),
                           LogWarn ''Health check failed'' (errorCount hc) c] w))))"

definition performHealthCheck :: "time \<Rightarrow> world \<Rightarrow> ref option \<Rightarrow> panic + world" where
  "performHealthCheck now w r =
     (case load_hc w r of
        None \<Rightarrow> Inl NilDereference
      | Some (h, hc0) \<Rightarrow>
          (let w1 = emit [IncrementHealthCheckCount (hc_metrics hc0)] w;
               hc = hc0\<lparr>lastCheck := now\<rparr>;
               w2 = emit [UpdateLastHealthCheck (hc_metrics hc)] w1
           in (case has_nameServerAddrs w2 hc of
                 Inl p \<Rightarrow> Inl p
               | Inr True \<Rightarrow>
                   (case IsConnected w2 (connMgr hc) of
                      Inl p \<Rightarrow> Inl p
                    | Inr b \<Rightarrow> report w2 h (hc\<lparr>healthy := b\<rparr>))
               | Inr False \<Rightarrow>
                   if sint (errorCount hc) < 5 then report w2 h (hc\<lparr>healthy := True\<rparr>)
                   else report w2 h (hc\<lparr>healthy := False\<rparr>))))"

subsection \<open>Scripts of calls\<close>

text \<open>
  A script is a sequence of calls on the store, in the order the mutexes serialise them.
  The two \<^verbatim>\<open>run\<close> loops only wait for a tick or for the stop channel and call the cycle
  at each tick, so their cycles appear in a script as calls of \<open>checkConnection\<close> and
  \<open>performHealthCheck\<close>. Scripts are not restricted further: a cycle may appear for a
  component that was never started or is already stopped, which only adds behaviours.
\<close>

datatype op =
    Op_NewConnectionManager time metrics_ptr "string list"
  | Op_NewHealthChecker time metrics_ptr "ref option"
  | Op_ConnectionManager_Start "ref option"
  | Op_ConnectionManager_Stop "ref option"
  | Op_IsConnected "ref option"
  | Op_GetHealthChecker "ref option"
  | Op_ForceReconnect "ref option"
  | Op_checkConnection "nat \<Rightarrow> string \<Rightarrow> err option" "ref option"
  | Op_HealthChecker_Start "ref option"
  | Op_HealthChecker_Stop "ref option"
  | Op_IsHealthy "ref option"
  | Op_GetLastCheck "ref option"
  | Op_GetErrorCount "ref option"
  | Op_performHealthCheck time "ref option"

definition returning :: "world \<Rightarrow> panic + 'a \<Rightarrow> panic + world" where
  "returning w res = (case res of Inl p \<Rightarrow> Inl p | Inr v \<Rightarrow> Inr w)"

fun exec :: "world \<Rightarrow> op \<Rightarrow> panic + world" where
  "exec w (Op_NewConnectionManager now m addrs) = Inr (fst (NewConnectionManager now w m addrs))"
| "exec w (Op_NewHealthChecker now m cmr) = Inr (fst (NewHealthChecker now w m cmr))"
| "exec w (Op_ConnectionManager_Start r) = ConnectionManager_Start w r"
| "exec w (Op_ConnectionManager_Stop r) = ConnectionManager_Stop w r"
| "exec w (Op_IsConnected r) = returning w (IsConnected w r)"
| "exec w (Op_GetHealthChecker r) = returning w (GetHealthChecker w r)"
| "exec w (Op_ForceReconnect r) = ForceReconnect w r"
| "exec w (Op_checkConnection dial r) = checkConnection dial w r"
| "exec w (Op_HealthChecker_Start r) = HealthChecker_Start w r"
| "exec w (Op_HealthChecker_Stop r) = HealthChecker_Stop w r"
| "exec w (Op_IsHealthy r) = returning w (IsHealthy w r)"
| "exec w (Op_GetLastCheck r) = returning w (GetLastCheck w r)"
| "exec w (Op_GetErrorCount r) = returning w (GetErrorCount w r)"
| "exec w (Op_performHealthCheck now r) = performHealthCheck now w r"

fun run_ops :: "world \<Rightarrow> op list \<Rightarrow> panic + world" where
  "run_ops w [] = Inr w"
| "run_ops w (x # xs) = (case exec w x of Inl p \<Rightarrow> Inl p | Inr w' \<Rightarrow> run_ops w' xs)"

subsection \<open>Objects as the constructors make them\<close>

text \<open>
  The fields of both structs are unexported and nothing but the constructors and the two
  \<^verbatim>\<open>Stop\<close> methods writes the pointer, channel and ticker fields. \<open>wf_world\<close>
  collects what every object of a store built by calls of the package satisfies: the stop
  channel and the ticker exist, a closed stop channel means a stopped ticker, the error
  count is zero, and a manager's \<^verbatim>\<open>healthChecker\<close> points at a checker of the store.
\<close>

definition wf_hc :: "HealthChecker \<Rightarrow> bool" where
  "wf_hc hc \<longleftrightarrow>
     errorCount hc = 0 \<and> hc_stopCh hc \<noteq> NilChan \<and>
     (\<exists>t. checkTicker hc = Some t \<and> (hc_stopCh hc = Closed \<longrightarrow> stopped t))"

definition wf_cm :: "world \<Rightarrow> ConnectionManager \<Rightarrow> bool" where
  "wf_cm w cm \<longleftrightarrow>
     cm_stopCh cm \<noteq> NilChan \<and>
     (\<exists>h. healthChecker cm = Some h \<and> h \<in> dom (hcs w))"

definition wf_world :: "world \<Rightarrow> bool" where
  "wf_world w \<longleftrightarrow>
     (\<forall>h hc. hcs w h = Some hc \<longrightarrow> wf_hc hc) \<and>
     (\<forall>c cm. cms w c = Some cm \<longrightarrow> wf_cm w cm)"



subsection \<open>The two mutexes\<close>

text \<open>
  Each struct has a \<^verbatim>\<open>sync.RWMutex\<close>. \<^verbatim>\<open>ConnectionManager.Stop\<close> holds \<^verbatim>\<open>cm.mu\<close>
  (line 42) while it calls \<^verbatim>\<open>hc.Stop\<close>, which takes \<^verbatim>\<open>hc.mu\<close> (line 146).
  \<^verbatim>\<open>performHealthCheck\<close> holds \<^verbatim>\<open>hc.mu\<close> (line 197) while it calls
  \<^verbatim>\<open>IsConnected\<close> (lines 205 and 217), which takes the read side of \<^verbatim>\<open>cm.mu\<close>
  (line 58). For these two methods the mutexes are added to the model. A \<open>call\<close> stands
  at one of the places where the method must take a mutex; \<open>step\<close> runs it from there up
  to the next such place or to its end, and is \<open>None\<close> when the mutex it needs is held by
  another call (the call blocks), and when the call is over. Between two such places a call
  does what the sequential definitions above do. A read lock is taken and released within
  one step, because \<^verbatim>\<open>IsConnected\<close> only reads a field under it; so a mutex is recorded
  as held exactly when it is write-locked. A deferred \<^verbatim>\<open>Unlock\<close> also runs when the
  method panics.
\<close>

record locked_world =
  world_of :: world
  cm_mu :: "ref \<Rightarrow> bool"
  hc_mu :: "ref \<Rightarrow> bool"

text \<open>
  The places of a call, with the receiver and what the call holds there:
  \<^item> \<open>Stop_Lock cm\<close>: \<^verbatim>\<open>cm.Stop()\<close> at line 42, before \<^verbatim>\<open>cm.mu.Lock()\<close>;
  \<^item> \<open>Stop_healthChecker_Stop c hc\<close>: at line 53, holding \<^verbatim>\<open>cm.mu\<close> of \<open>c\<close>, before
    \<^verbatim>\<open>hc.mu.Lock()\<close> of line 146;
  \<^item> \<open>Check_Lock now hc\<close>: \<^verbatim>\<open>hc.performHealthCheck()\<close> at line 197, before
    \<^verbatim>\<open>hc.mu.Lock()\<close>, where the clock will read \<open>now\<close>;
  \<^item> \<open>Check_IsConnected h cm\<close>: at line 205, holding \<^verbatim>\<open>hc.mu\<close> of \<open>h\<close>, before
    \<^verbatim>\<open>cm.mu.RLock()\<close> of line 58;
  \<^item> \<open>Check_Warn_IsConnected h cm\<close>: the same at line 217, for the argument of the warning;
  \<^item> \<open>Returned\<close> and \<open>Panicked\<close>: the call is over and holds nothing.
\<close>

datatype call =
    Stop_Lock "ref option"
  | Stop_healthChecker_Stop ref "ref option"
  | Check_Lock time "ref option"
  | Check_IsConnected ref "ref option"
  | Check_Warn_IsConnected ref "ref option"
  | Returned
  | Panicked panic

definition unlock_cm :: "ref \<Rightarrow> locked_world \<Rightarrow> locked_world" where
  "unlock_cm c s = s\<lparr>cm_mu := (cm_mu s)(c := False)\<rparr>"

definition unlock_hc :: "ref \<Rightarrow> locked_world \<Rightarrow> locked_world" where
  "unlock_hc h s = s\<lparr>hc_mu := (hc_mu s)(h := False)\<rparr>"

definition report_step :: "locked_world \<Rightarrow> ref \<Rightarrow> HealthChecker \<Rightarrow> locked_world \<times> call" where
  "report_step s h hc =
     (if healthy hc
      then (unlock_hc h (s\<lparr>world_of := store_hc h hc (emit [SetHealthy (hc_metrics hc) True] (world_of s))\<rparr>),
            Returned)
      else
        (let s' = s\<lparr>world_of := store_hc h hc
                      (emit [SetHealthy (hc_metrics hc) False, IncrementHealthCheckErrors (hc_metrics hc)]
                         (world_of s))\<rparr>
         in if connMgr hc \<noteq> None then (s', Check_Warn_IsConnected h (connMgr hc))
            else (unlock_hc h (s'\<lparr>world_of := emit [LogWarn ''Health check failed'' (errorCount hc) False]
                                                  (world_of s')\<rparr>),
                  Returned)))"

fun step :: "locked_world \<Rightarrow> call \<Rightarrow> (locked_world \<times> call) option" where
  "step s (Stop_Lock r) =
     (case load_cm (world_of s) r of
        None \<Rightarrow> Some (s, Panicked NilDereference)
      | Some (c, cm) \<Rightarrow>
          if cm_mu s c then None
          else
            (case cm_stopCh cm of
               Closed \<Rightarrow> Some (s, Returned)
             | NilChan \<Rightarrow> Some (s, Panicked CloseOfNilChannel)
             | Open \<Rightarrow>
                 Some (s\<lparr>world_of := store_cm c (cm\<lparr>cm_stopCh := Closed\<rparr>) (world_of s),
                          cm_mu := (cm_mu s)(c := True)\<rparr>,
                       Stop_healthChecker_Stop c (healthChecker cm))))"
| "step s (Stop_healthChecker_Stop c hr) =
     (case load_hc (world_of s) hr of
        None \<Rightarrow> Some (unlock_cm c s, Panicked NilDereference)
      | Some (h, hc) \<Rightarrow>
          if hc_mu s h then None
          else
            (case HealthChecker_Stop (world_of s) hr of
               Inl p \<Rightarrow> Some (unlock_cm c s, Panicked p)
             | Inr w' \<Rightarrow> Some (unlock_cm c (s\<lparr>world_of := w'\<rparr>), Returned)))"
| "step s (Check_Lock now r) =
     (case load_hc (world_of s) r of
        None \<Rightarrow> Some (s, Panicked NilDereference)
      | Some (h, hc0) \<Rightarrow>
          if hc_mu s h then None
          else
            (let w1 = emit [IncrementHealthCheckCount (hc_metrics hc0)] (world_of s);
                 hc = hc0\<lparr>lastCheck := now\<rparr>;
                 w2 = emit [UpdateLastHealthCheck (hc_metrics hc)] w1;
                 s2 = s\<lparr>world_of := store_hc h hc w2, hc_mu := (hc_mu s)(h := True)\<rparr>
             in (case has_nameServerAddrs w2 hc of
                   Inl p \<Rightarrow> Some (unlock_hc h s2, Panicked p)
                 | Inr True \<Rightarrow> Some (s2, Check_IsConnected h (connMgr hc))
                 | Inr False \<Rightarrow>
                     if sint (errorCount hc) < 5 then Some (report_step s2 h (hc\<lparr>healthy := True\<rparr>))
                     else Some (report_step s2 h (hc\<lparr>healthy := False\<rparr>)))))"
| "step s (Check_IsConnected h cr) =
     (case load_cm (world_of s) cr of
        None \<Rightarrow> Some (unlock_hc h s, Panicked NilDereference)
      | Some (c, cm) \<Rightarrow>
          if cm_mu s c then None
          else
            (case hcs (world_of s) h of
               None \<Rightarrow> Some (unlock_hc h s, Panicked NilDereference)
             | Some hc \<Rightarrow> Some (report_step s h (hc\<lparr>healthy := connected cm\<rparr>))))"
| "step s (Check_Warn_IsConnected h cr) =
     (case load_cm (world_of s) cr of
        None \<Rightarrow> Some (unlock_hc h s, Panicked NilDereference)
      | Some (c, cm) \<Rightarrow>
          if cm_mu s c then None
          else
            (case hcs (world_of s) h of
               None \<Rightarrow> Some (unlock_hc h s, Panicked NilDereference)
             | Some hc \<Rightarrow>
                 Some (unlock_hc h
                         (s\<lparr>world_of := emit [LogWarn ''Health check failed'' (errorCount hc) (connected cm)]
                                            (world_of s)\<rparr>),
                       Returned)))"
| "step s Returned = None"
| "step s (Panicked p) = None"

fun run_call :: "nat \<Rightarrow> locked_world \<Rightarrow> call \<Rightarrow> locked_world \<times> call" where
  "run_call 0 s t = (s, t)"
| "run_call (Suc n) s t = (case step s t of None \<Rightarrow> (s, t) | Some (s', t') \<Rightarrow> run_call n s' t')"

definition unlocked :: "world \<Rightarrow> locked_world" where
  "unlocked w = \<lparr>world_of = w, cm_mu = (\<lambda>c. False), hc_mu = (\<lambda>h. False)\<rparr>"

subsection \<open>Observing the trace\<close>

text \<open>Which events are calls of a given method of a collaborator.\<close>

fun is_SetHealthy :: "event \<Rightarrow> bool" where
  "is_SetHealthy (SetHealthy m b) = True"
| "is_SetHealthy _ = False"

fun is_IncrementHealthCheckErrors :: "event \<Rightarrow> bool" where
  "is_IncrementHealthCheckErrors (IncrementHealthCheckErrors m) = True"
| "is_IncrementHealthCheckErrors _ = False"

fun is_LogWarn :: "event \<Rightarrow> bool" where
  "is_LogWarn (LogWarn s e c) = True"
| "is_LogWarn _ = False"

fun is_IncrementHealthCheckCount :: "event \<Rightarrow> bool" where
  "is_IncrementHealthCheckCount (IncrementHealthCheckCount m) = True"
| "is_IncrementHealthCheckCount _ = False"

fun is_UpdateLastHealthCheck :: "event \<Rightarrow> bool" where
  "is_UpdateLastHealthCheck (UpdateLastHealthCheck m) = True"
| "is_UpdateLastHealthCheck _ = False"

fun is_IncrementReconnectionCount :: "event \<Rightarrow> bool" where
  "is_IncrementReconnectionCount (IncrementReconnectionCount m) = True"
| "is_IncrementReconnectionCount _ = False"

fun is_DialTimeout :: "event \<Rightarrow> bool" where
  "is_DialTimeout (DialTimeout n a t) = True"
| "is_DialTimeout _ = False"

subsection \<open>Example stores\<close>

text \<open>
  \<open>fixture\<close>: a health checker made with a nil manager (at 0), then a manager with two
  name server addresses (at 1) and the checker it owns (at 2). \<open>fixture_empty\<close>: a
  manager without addresses (at 0) and its checker (at 1). \<open>fixture_errors\<close>: a checker
  with a nil manager whose error count was set to 5 by hand, as in the scenario of the
  specification. \<open>fixture_stopped\<close>: \<open>fixture\<close> after \<open>Stop\<close> of its manager.
\<close>

definition fixture :: world where
  "fixture = fst (NewConnectionManager 100 (fst (NewHealthChecker 50 empty_world (Some 9) None))
                    (Some 9) [''10.0.0.1:9876'', ''10.0.0.2:9876''])"

definition fixture_empty :: world where
  "fixture_empty = fst (NewConnectionManager 100 empty_world (Some 9) [])"

definition fixture_errors :: world where
  "fixture_errors =
     store_hc 0 \<lparr>hc_metrics = Some 9, connMgr = None, healthy = True, lastCheck = 50,
                  errorCount = 5, hc_stopCh = Open, checkTicker = Some (Ticker 10 False)\<rparr>
       empty_world"


section \<open>Basic facts\<close>

lemma emit_sel [simp]:
  "cms (emit evs w) = cms w" "hcs (emit evs w) = hcs w"
  "trace (emit evs w) = trace w @ evs" "next_ref (emit evs w) = next_ref w"
  by (simp_all add: emit_def)

lemma store_hc_sel [simp]:
  "cms (store_hc h hc w) = cms w" "hcs (store_hc h hc w) = (hcs w)(h \<mapsto> hc)"
  "trace (store_hc h hc w) = trace w" "next_ref (store_hc h hc w) = next_ref w"
  by (simp_all add: store_hc_def)

lemma store_cm_sel [simp]:
  "cms (store_cm c cm w) = (cms w)(c \<mapsto> cm)" "hcs (store_cm c cm w) = hcs w"
  "trace (store_cm c cm w) = trace w" "next_ref (store_cm c cm w) = next_ref w"
  by (simp_all add: store_cm_def)

lemma emit_emit: "emit b (emit a w) = emit (a @ b) w"
  by (simp add: emit_def)

lemma load_hc_Some [simp]: "load_hc w (Some h) = map_option (Pair h) (hcs w h)"
  by (simp add: load_hc_def)

lemma load_cm_Some [simp]: "load_cm w (Some c) = map_option (Pair c) (cms w c)"
  by (simp add: load_cm_def)

lemma load_None [simp]: "load_hc w None = None" "load_cm w None = None"
  by (simp_all add: load_hc_def load_cm_def)

lemma wf_empty_world: "wf_world empty_world"
  by (simp add: wf_world_def empty_world_def)

lemma wf_emit: "wf_world w \<Longrightarrow> wf_world (emit evs w)"
  by (simp add: wf_world_def wf_cm_def)

lemma wf_cm_cong: "dom (hcs w) \<subseteq> dom (hcs w') \<Longrightarrow> wf_cm w cm \<Longrightarrow> wf_cm w' cm"
  unfolding wf_cm_def by blast

lemma wf_store_hc:
  assumes "wf_world w" and "wf_hc hc"
  shows "wf_world (store_hc h hc w)"
proof -
  have "wf_cm (store_hc h hc w) cm" if "wf_cm w cm" for cm
    using that by (rule wf_cm_cong [rotated]) auto
  then show ?thesis
    using assms unfolding wf_world_def by (auto split: if_splits)
qed

lemma wf_store_cm:
  assumes "wf_world w" and "wf_cm w cm"
  shows "wf_world (store_cm c cm w)"
proof -
  have "wf_cm (store_cm c cm w) k" if "wf_cm w k" for k
    using that by (rule wf_cm_cong [rotated]) auto
  then show ?thesis
    using assms unfolding wf_world_def by (auto split: if_splits)
qed

lemma wf_hcD: "wf_world w \<Longrightarrow> hcs w h = Some hc \<Longrightarrow> wf_hc hc"
  unfolding wf_world_def by blast

lemma wf_cmD: "wf_world w \<Longrightarrow> cms w c = Some cm \<Longrightarrow> wf_cm w cm"
  unfolding wf_world_def by blast

lemma wf_next_ref: "wf_world w \<Longrightarrow> wf_world (w\<lparr>next_ref := n\<rparr>)"
  by (simp add: wf_world_def wf_cm_def)

lemma wf_NewHealthChecker: "wf_world w \<Longrightarrow> wf_world (fst (NewHealthChecker now w m cmr))"
  by (simp add: NewHealthChecker_def Let_def wf_store_hc wf_next_ref wf_hc_def)

lemma wf_NewConnectionManager:
  assumes "wf_world w"
  shows "wf_world (fst (NewConnectionManager now w m addrs))"
proof -
  let ?c = "next_ref w"
  let ?cm = "\<lparr>cm_metrics = m, healthChecker = None, nameServerAddrs = addrs,
              connected = False, cm_stopCh = Open\<rparr>"
  let ?hc = "\<lparr>hc_metrics = m, connMgr = Some ?c, healthy = False, lastCheck = now,
              errorCount = 0, hc_stopCh = Open, checkTicker = Some (Ticker 10 False)\<rparr>"
  have eq: "fst (NewConnectionManager now w m addrs) =
              store_cm ?c (?cm\<lparr>healthChecker := Some (Suc ?c)\<rparr>)
                (store_hc (Suc ?c) ?hc (w\<lparr>next_ref := Suc (Suc ?c)\<rparr>))"
    by (simp add: NewConnectionManager_def NewHealthChecker_def Let_def store_cm_def store_hc_def)
  have "wf_world (store_hc (Suc ?c) ?hc (w\<lparr>next_ref := Suc (Suc ?c)\<rparr>))"
    by (intro wf_store_hc wf_next_ref assms) (simp add: wf_hc_def)
  then show ?thesis
    unfolding eq by (rule wf_store_cm) (simp add: wf_cm_def)
qed

lemma wf_HealthChecker_Stop:
  assumes "wf_world w" and "HealthChecker_Stop w r = Inr w'"
  shows "wf_world w'"
proof (cases "load_hc w r")
  case None
  with assms(2) show ?thesis by (simp add: HealthChecker_Stop_def)
next
  case (Some p)
  obtain h hc where p: "p = (h, hc)" by (cases p)
  from Some p have hc: "hcs w h = Some hc"
    by (auto simp: load_hc_def split: option.splits)
  note D = wf_hcD [OF assms(1) hc]
  show ?thesis
    using assms Some p D
    by (auto simp: HealthChecker_Stop_def wf_hc_def split: chan.splits option.splits
        intro!: wf_store_hc)
qed

lemma wf_ConnectionManager_Stop:
  assumes "wf_world w" and "ConnectionManager_Stop w r = Inr w'"
  shows "wf_world w'"
proof (cases "load_cm w r")
  case None
  with assms(2) show ?thesis by (simp add: ConnectionManager_Stop_def)
next
  case (Some p)
  obtain c cm where p: "p = (c, cm)" by (cases p)
  from Some p have cm: "cms w c = Some cm"
    by (auto simp: load_cm_def split: option.splits)
  note D = wf_cmD [OF assms(1) cm]
  have "wf_world (store_cm c (cm\<lparr>cm_stopCh := Closed\<rparr>) w)"
    using D by (intro wf_store_cm assms(1)) (simp add: wf_cm_def)
  then show ?thesis
    using assms Some p
    by (auto simp: ConnectionManager_Stop_def split: chan.splits dest: wf_HealthChecker_Stop)
qed

lemma wf_ForceReconnect:
  assumes "wf_world w" and "ForceReconnect w r = Inr w'"
  shows "wf_world w'"
proof (cases "load_cm w r")
  case None
  with assms(2) show ?thesis by (simp add: ForceReconnect_def)
next
  case (Some p)
  obtain c cm where p: "p = (c, cm)" by (cases p)
  from Some p have cm: "cms w c = Some cm"
    by (auto simp: load_cm_def split: option.splits)
  note D = wf_cmD [OF assms(1) cm]
  have "wf_world (store_cm c (cm\<lparr>connected := False\<rparr>) w)"
    using D by (intro wf_store_cm assms(1)) (simp add: wf_cm_def)
  then show ?thesis
    using assms(2) Some p by (auto simp: ForceReconnect_def intro: wf_emit)
qed

lemma wf_checkConnection:
  assumes "wf_world w" and "checkConnection dial w r = Inr w'"
  shows "wf_world w'"
proof (cases "load_cm w r")
  case None
  with assms(2) show ?thesis by (simp add: checkConnection_def)
next
  case (Some p)
  obtain c cm where p: "p = (c, cm)" by (cases p)
  from Some p have cm: "cms w c = Some cm"
    by (auto simp: load_cm_def split: option.splits)
  note D = wf_cmD [OF assms(1) cm]
  have "wf_world (store_cm c (cm\<lparr>connected := b\<rparr>) (emit evs w))" for b evs
    using D by (intro wf_store_cm wf_emit assms(1)) (simp add: wf_cm_def)
  moreover have "wf_world (store_cm c (cm\<lparr>connected := True\<rparr>) w)"
    using D by (intro wf_store_cm assms(1)) (simp add: wf_cm_def)
  ultimately show ?thesis
    using assms(2) Some p
    by (auto simp: checkConnection_def Let_def split: if_splits prod.splits)
qed

lemma wf_report:
  assumes "wf_world w" and "hcs w h = Some hc0" and "errorCount hc = 0"
    and "hc_stopCh hc = hc_stopCh hc0" and "checkTicker hc = checkTicker hc0"
    and "report w h hc = Inr w'"
  shows "wf_world w'"
proof -
  note D = wf_hcD [OF assms(1,2)]
  have "wf_world (store_hc h hc (emit evs w))" for evs
    using D assms(3-5) by (intro wf_store_hc wf_emit assms(1)) (simp add: wf_hc_def)
  then show ?thesis
    using assms(6) by (auto simp: report_def split: if_splits sum.splits)
qed

lemma wf_performHealthCheck:
  assumes "wf_world w" and "performHealthCheck now w r = Inr w'"
  shows "wf_world w'"
proof (cases "load_hc w r")
  case None
  with assms(2) show ?thesis by (simp add: performHealthCheck_def)
next
  case (Some p)
  obtain h hc where p: "p = (h, hc)" by (cases p)
  from Some p have hc: "hcs w h = Some hc"
    by (auto simp: load_hc_def split: option.splits)
  note D = wf_hcD [OF assms(1) hc]
  let ?w2 = "emit [UpdateLastHealthCheck (hc_metrics hc)] (emit [IncrementHealthCheckCount (hc_metrics hc)] w)"
  have w2: "wf_world ?w2" by (intro wf_emit assms(1))
  have hc2: "hcs ?w2 h = Some hc" using hc by simp
  have "report ?w2 h (hc\<lparr>lastCheck := now, healthy := b\<rparr>) = Inr w' \<Longrightarrow> wf_world w'" for b
    using D by (elim wf_report [OF w2 hc2, rotated -1]) (simp_all add: wf_hc_def)
  then show ?thesis
    using assms(2) Some p
    by (auto simp: performHealthCheck_def Let_def split: sum.splits bool.splits if_splits)
qed

lemma wf_exec:
  assumes "wf_world w" and "exec w x = Inr w'"
  shows "wf_world w'"
  using assms
  by (cases x)
    (auto simp: returning_def ConnectionManager_Start_def HealthChecker_Start_def
      split: sum.splits option.splits
      intro: wf_NewConnectionManager wf_NewHealthChecker wf_emit
      dest: wf_ConnectionManager_Stop wf_HealthChecker_Stop wf_ForceReconnect
        wf_checkConnection wf_performHealthCheck)

lemma wf_run_ops:
  assumes "wf_world w" and "run_ops w xs = Inr w'"
  shows "wf_world w'"
  using assms
  by (induction xs arbitrary: w) (auto split: sum.splits dest: wf_exec)

lemma reachable_wf: "run_ops empty_world xs = Inr w \<Longrightarrow> wf_world w"
  by (rule wf_run_ops [OF wf_empty_world])

subsection \<open>The example stores\<close>

lemma fixture_hcs_0:
  "hcs fixture 0 = Some \<lparr>hc_metrics = Some 9, connMgr = None, healthy = False, lastCheck = 50,
      errorCount = 0, hc_stopCh = Open, checkTicker = Some (Ticker 10 False)\<rparr>"
  by (simp add: fixture_def NewConnectionManager_def NewHealthChecker_def empty_world_def Let_def)

lemma fixture_cms_1:
  "cms fixture (Suc 0) = Some \<lparr>cm_metrics = Some 9, healthChecker = Some 2,
      nameServerAddrs = [''10.0.0.1:9876'', ''10.0.0.2:9876''], connected = False, cm_stopCh = Open\<rparr>"
  by (simp add: fixture_def NewConnectionManager_def NewHealthChecker_def empty_world_def Let_def)

lemma fixture_hcs_2:
  "hcs fixture 2 = Some \<lparr>hc_metrics = Some 9, connMgr = Some 1, healthy = False, lastCheck = 100,
      errorCount = 0, hc_stopCh = Open, checkTicker = Some (Ticker 10 False)\<rparr>"
  by (simp add: fixture_def NewConnectionManager_def NewHealthChecker_def empty_world_def Let_def)

lemma fixture_trace: "trace fixture = []"
  by (simp add: fixture_def NewConnectionManager_def NewHealthChecker_def empty_world_def Let_def)


lemma fixture_empty_cms_0:
  "cms fixture_empty 0 = Some \<lparr>cm_metrics = Some 9, healthChecker = Some 1,
      nameServerAddrs = [], connected = False, cm_stopCh = Open\<rparr>"
  by (simp add: fixture_empty_def NewConnectionManager_def NewHealthChecker_def empty_world_def Let_def)

lemma fixture_empty_hcs_1:
  "hcs fixture_empty (Suc 0) = Some \<lparr>hc_metrics = Some 9, connMgr = Some 0, healthy = False, lastCheck = 100,
      errorCount = 0, hc_stopCh = Open, checkTicker = Some (Ticker 10 False)\<rparr>"
  by (simp add: fixture_empty_def NewConnectionManager_def NewHealthChecker_def empty_world_def Let_def)

lemma fixture_empty_script:
  "run_ops empty_world [Op_NewConnectionManager 100 (Some 9) []] = Inr fixture_empty"
  by (simp add: fixture_empty_def)

lemma fixture_errors_hcs_0:
  "hcs fixture_errors 0 = Some \<lparr>hc_metrics = Some 9, connMgr = None, healthy = True, lastCheck = 50,
      errorCount = 5, hc_stopCh = Open, checkTicker = Some (Ticker 10 False)\<rparr>"
  by (simp add: fixture_errors_def)

lemma fixture_errors_trace: "trace fixture_errors = []"
  by (simp add: fixture_errors_def empty_world_def)

subsection \<open>What one health check cycle computes\<close>

lemma performHealthCheck_unbound:
  assumes "hcs w h = Some hc" and "connMgr hc = None"
  shows "performHealthCheck now w (Some h) =
           Inr (store_hc h (hc\<lparr>lastCheck := now, healthy := sint (errorCount hc) < 5\<rparr>)
                  (emit ([IncrementHealthCheckCount (hc_metrics hc), UpdateLastHealthCheck (hc_metrics hc)] @
                         (if sint (errorCount hc) < 5 then [SetHealthy (hc_metrics hc) True]
                          else [SetHealthy (hc_metrics hc) False,
                                IncrementHealthCheckErrors (hc_metrics hc),
                                LogWarn ''Health check failed'' (errorCount hc) False])) w))"
  using assms
  by (simp add: performHealthCheck_def has_nameServerAddrs_def report_def connMgr_connected_def
      emit_emit Let_def)

lemma performHealthCheck_bound:
  assumes "hcs w h = Some hc" and "connMgr hc = Some c" and "cms w c = Some cm"
  shows "performHealthCheck now w (Some h) =
           (let b = (if nameServerAddrs cm \<noteq> [] then connected cm else sint (errorCount hc) < 5)
            in Inr (store_hc h (hc\<lparr>lastCheck := now, healthy := b\<rparr>)
                  (emit ([IncrementHealthCheckCount (hc_metrics hc), UpdateLastHealthCheck (hc_metrics hc)] @
                         (if b then [SetHealthy (hc_metrics hc) True]
                          else [SetHealthy (hc_metrics hc) False,
                                IncrementHealthCheckErrors (hc_metrics hc),
                                LogWarn ''Health check failed'' (errorCount hc) (connected cm)])) w)))"
  using assms
  by (simp add: performHealthCheck_def has_nameServerAddrs_def report_def connMgr_connected_def
      IsConnected_def emit_emit Let_def)

section \<open>The health verdict\<close>

text \<open>
  C1. After a health check cycle of a checker bound to a manager with a non-empty address
  list, \<open>IsHealthy\<close> equals the manager's \<open>IsConnected\<close>; with no manager, or with an
  empty address list, \<open>IsHealthy\<close> is true exactly when the error count, read as a
  signed 64-bit integer, is below 5. This holds from every store, whatever the
  connectivity flag and the error count are, and the cycle returns.
\<close>

theorem performHealthCheck_verdict:
  assumes "hcs w h = Some hc"
    and "connMgr hc = None \<or> (\<exists>c. connMgr hc = Some c \<and> cms w c \<noteq> None)"
  shows "\<exists>w'. performHealthCheck now w (Some h) = Inr w' \<and>
           (case connMgr hc of
              None \<Rightarrow> IsHealthy w' (Some h) = Inr (sint (errorCount hc) < 5)
            | Some c \<Rightarrow>
                (case cms w c of
                   None \<Rightarrow> False
                 | Some cm \<Rightarrow>
                     IsConnected w' (Some c) = Inr (connected cm) \<and>
                     (if nameServerAddrs cm \<noteq> [] then IsHealthy w' (Some h) = IsConnected w' (Some c)
                      else IsHealthy w' (Some h) = Inr (sint (errorCount hc) < 5))))"
proof (cases "connMgr hc")
  case None
  with assms(1) show ?thesis
    by (simp add: performHealthCheck_unbound IsHealthy_def)
next
  case (Some c)
  with assms(2) obtain cm where cm: "cms w c = Some cm" by auto
  show ?thesis
    using assms(1) Some cm
    by (simp add: performHealthCheck_bound IsHealthy_def IsConnected_def Let_def)
qed

theorem performHealthCheck_verdict_witness:
  "(\<exists>w'. performHealthCheck 130 fixture (Some 2) = Inr w' \<and>
         IsConnected w' (Some 1) = Inr False \<and> IsHealthy w' (Some 2) = IsConnected w' (Some 1)) \<and>
   (\<exists>w'. performHealthCheck 130 fixture (Some 0) = Inr w' \<and> IsHealthy w' (Some 0) = Inr True)"
  using performHealthCheck_verdict [OF fixture_hcs_2, of 130]
    performHealthCheck_verdict [OF fixture_hcs_0, of 130]
  by (simp add: fixture_cms_1)

text \<open>
  C4. Every health check cycle makes exactly one gauge call, with the verdict it stored.
  When the verdict is unhealthy it makes exactly one call of the error counter and one
  warning entry, which carries the error count and the manager's connectivity flag
  (false when there is no manager); when the verdict is healthy it makes neither.
\<close>

theorem performHealthCheck_reports:
  assumes "hcs w h = Some hc"
    and "connMgr hc = None \<or> (\<exists>c. connMgr hc = Some c \<and> cms w c \<noteq> None)"
  shows "\<exists>w' b evs. performHealthCheck now w (Some h) = Inr w' \<and>
           IsHealthy w' (Some h) = Inr b \<and> trace w' = trace w @ evs \<and>
           filter is_SetHealthy evs = [SetHealthy (hc_metrics hc) b] \<and>
           filter is_IncrementHealthCheckErrors evs =
             (if b then [] else [IncrementHealthCheckErrors (hc_metrics hc)]) \<and>
           filter is_LogWarn evs =
             (if b then []
              else [LogWarn ''Health check failed'' (errorCount hc)
                      (case connMgr hc of
                         None \<Rightarrow> False
                       | Some c \<Rightarrow> (case cms w c of None \<Rightarrow> False | Some cm \<Rightarrow> connected cm))])"
proof (cases "connMgr hc")
  case None
  with assms(1) show ?thesis
    by (simp add: performHealthCheck_unbound IsHealthy_def)
next
  case (Some c)
  with assms(2) obtain cm where cm: "cms w c = Some cm" by auto
  show ?thesis
    using assms(1) Some cm
    by (simp add: performHealthCheck_bound IsHealthy_def Let_def)
qed

theorem performHealthCheck_reports_witness:
  "(\<exists>w'. performHealthCheck 130 fixture_errors (Some 0) = Inr w' \<and>
         IsHealthy w' (Some 0) = Inr False \<and>
         filter is_SetHealthy (trace w') = [SetHealthy (Some 9) False] \<and>
         filter is_IncrementHealthCheckErrors (trace w') = [IncrementHealthCheckErrors (Some 9)] \<and>
         filter is_LogWarn (trace w') = [LogWarn ''Health check failed'' 5 False]) \<and>
   (\<exists>w'. performHealthCheck 130 fixture (Some 0) = Inr w' \<and>
         IsHealthy w' (Some 0) = Inr True \<and>
         filter is_SetHealthy (trace w') = [SetHealthy (Some 9) True] \<and>
         filter is_IncrementHealthCheckErrors (trace w') = [] \<and>
         filter is_LogWarn (trace w') = [])"
  using performHealthCheck_reports [OF fixture_errors_hcs_0, of 130]
    performHealthCheck_reports [OF fixture_hcs_0, of 130]
  by (auto simp: fixture_trace fixture_errors_trace IsHealthy_def
      performHealthCheck_unbound [OF fixture_errors_hcs_0]
      performHealthCheck_unbound [OF fixture_hcs_0])

text \<open>
  C8. Whatever the verdict, a health check cycle stores the clock's reading in
  \<open>lastCheck\<close>, and its first two events are the call of the health check counter and
  the call that reports the last check; the gauge call with the verdict comes right after
  them, and neither of the two calls occurs again in the cycle.
\<close>

theorem performHealthCheck_bookkeeping:
  assumes "hcs w h = Some hc"
    and "connMgr hc = None \<or> (\<exists>c. connMgr hc = Some c \<and> cms w c \<noteq> None)"
  shows "\<exists>w' b rest. performHealthCheck now w (Some h) = Inr w' \<and>
           GetLastCheck w' (Some h) = Inr now \<and> IsHealthy w' (Some h) = Inr b \<and>
           trace w' = trace w @ IncrementHealthCheckCount (hc_metrics hc) #
                        UpdateLastHealthCheck (hc_metrics hc) # SetHealthy (hc_metrics hc) b # rest \<and>
           filter is_IncrementHealthCheckCount rest = [] \<and>
           filter is_UpdateLastHealthCheck rest = []"
proof (cases "connMgr hc")
  case None
  with assms(1) show ?thesis
    by (simp add: performHealthCheck_unbound IsHealthy_def GetLastCheck_def)
next
  case (Some c)
  with assms(2) obtain cm where cm: "cms w c = Some cm" by auto
  show ?thesis
    using assms(1) Some cm
    by (simp add: performHealthCheck_bound IsHealthy_def GetLastCheck_def Let_def)
qed

theorem performHealthCheck_bookkeeping_witness:
  "\<exists>w'. performHealthCheck 130 fixture (Some 0) = Inr w' \<and> GetLastCheck w' (Some 0) = Inr 130 \<and>
        IsHealthy w' (Some 0) = Inr True \<and>
        trace w' = [IncrementHealthCheckCount (Some 9), UpdateLastHealthCheck (Some 9),
                    SetHealthy (Some 9) True]"
  using performHealthCheck_bookkeeping [OF fixture_hcs_0, of 130]
  by (auto simp: fixture_trace performHealthCheck_unbound [OF fixture_hcs_0])

section \<open>The probe cycle\<close>

text \<open>The loop, by the number \<open>k\<close> of dials that fail before the first one succeeds.\<close>

lemma probe_spec:
  "\<exists>k\<le>length as.
      (\<forall>j<k. dial (i + j) (as ! j) \<noteq> None) \<and>
      (k < length as \<longrightarrow> dial (i + k) (as ! k) = None) \<and>
      probe dial all i as =
        (k < length as,
         concat (map (\<lambda>j. [DialTimeout ''tcp'' (as ! j) nameServerProbeTimeout,
                             LogDebug ''RocketMQ NameServer probe failed'' all (the (dial (i + j) (as ! j)))])
                   [0..<k]) @
         (if k < length as then [DialTimeout ''tcp'' (as ! k) nameServerProbeTimeout, ConnClose (as ! k)]
          else []))"
proof (induction as arbitrary: i)
  case Nil
  show ?case by simp
next
  case (Cons a as)
  show ?case
  proof (cases "dial i a")
    case None
    then show ?thesis by (intro exI [of _ 0]) simp
  next
    case (Some e)
    from Cons.IH [of "Suc i"] obtain k where k: "k \<le> length as"
      and fails: "\<forall>j<k. dial (Suc i + j) (as ! j) \<noteq> None"
      and succ: "k < length as \<longrightarrow> dial (Suc i + k) (as ! k) = None"
      and pr: "probe dial all (Suc i) as =
        (k < length as,
         concat (map (\<lambda>j. [DialTimeout ''tcp'' (as ! j) nameServerProbeTimeout,
                             LogDebug ''RocketMQ NameServer probe failed'' all (the (dial (Suc i + j) (as ! j)))])
                   [0..<k]) @
         (if k < length as then [DialTimeout ''tcp'' (as ! k) nameServerProbeTimeout, ConnClose (as ! k)]
          else []))"
      by blast
    have upt: "[0..<Suc k] = 0 # map Suc [0..<k]"
      by (simp add: upt_conv_Cons map_Suc_upt del: upt_Suc)
    have fails': "\<forall>j<Suc k. dial (i + j) ((a # as) ! j) \<noteq> None"
    proof (intro allI impI)
      fix j assume "j < Suc k"
      then show "dial (i + j) ((a # as) ! j) \<noteq> None"
        using fails Some by (cases j) auto
    qed
    show ?thesis
      using k succ fails' Some pr
      by (intro exI [of _ "Suc k"]) (simp add: upt comp_def del: upt_Suc)
  qed
qed

text \<open>
  C2. With a non-empty address list, one probe cycle dials the addresses in list order up
  to the first success: \<open>k\<close> is the number of failed dials, each followed by its debug
  entry; if \<open>k\<close> is below the length of the list, the dial of address \<open>k\<close> succeeds,
  its connection is closed and nothing follows; \<open>connected\<close> is afterwards true exactly
  when some dial of the list succeeds, and false when all of them fail.
\<close>

theorem checkConnection_probes:
  assumes "cms w c = Some cm" and "nameServerAddrs cm \<noteq> []"
  shows "\<exists>w' k. checkConnection dial w (Some c) = Inr w' \<and>
           k \<le> length (nameServerAddrs cm) \<and>
           (\<forall>i<k. dial i (nameServerAddrs cm ! i) \<noteq> None) \<and>
           (k < length (nameServerAddrs cm) \<longrightarrow> dial k (nameServerAddrs cm ! k) = None) \<and>
           IsConnected w' (Some c) = Inr (k < length (nameServerAddrs cm)) \<and>
           IsConnected w' (Some c) =
             Inr (\<exists>i<length (nameServerAddrs cm). dial i (nameServerAddrs cm ! i) = None) \<and>
           trace w' = trace w @
             concat (map (\<lambda>i. [DialTimeout ''tcp'' (nameServerAddrs cm ! i) nameServerProbeTimeout,
                                 LogDebug ''RocketMQ NameServer probe failed'' (nameServerAddrs cm)
                                   (the (dial i (nameServerAddrs cm ! i)))])
                       [0..<k]) @
             (if k < length (nameServerAddrs cm)
              then [DialTimeout ''tcp'' (nameServerAddrs cm ! k) nameServerProbeTimeout,
                    ConnClose (nameServerAddrs cm ! k)]
              else [])"
proof -
  let ?as = "nameServerAddrs cm"
  from probe_spec [of ?as dial 0 ?as] obtain k where k: "k \<le> length ?as"
    and fails: "\<forall>j<k. dial j (?as ! j) \<noteq> None"
    and succ: "k < length ?as \<longrightarrow> dial k (?as ! k) = None"
    and pr: "probe dial ?as 0 ?as =
        (k < length ?as,
         concat (map (\<lambda>j. [DialTimeout ''tcp'' (?as ! j) nameServerProbeTimeout,
                             LogDebug ''RocketMQ NameServer probe failed'' ?as (the (dial j (?as ! j)))])
                   [0..<k]) @
         (if k < length ?as then [DialTimeout ''tcp'' (?as ! k) nameServerProbeTimeout, ConnClose (?as ! k)]
          else []))"
    by auto
  have ex: "(\<exists>i<length ?as. dial i (?as ! i) = None) \<longleftrightarrow> k < length ?as"
  proof
    assume "\<exists>i<length ?as. dial i (?as ! i) = None"
    then obtain i where "i < length ?as" "dial i (?as ! i) = None" by blast
    with fails have "\<not> i < k" by blast
    with \<open>i < length ?as\<close> show "k < length ?as" by simp
  next
    assume "k < length ?as"
    with succ show "\<exists>i<length ?as. dial i (?as ! i) = None" by blast
  qed
  show ?thesis
    using assms k fails succ
    by (intro exI [of _ "store_cm c (cm\<lparr>connected := k < length ?as\<rparr>) (emit (snd (probe dial ?as 0 ?as)) w)"]
        exI [of _ k])
      (simp add: checkConnection_def pr ex IsConnected_def)
qed

theorem checkConnection_probes_witness:
  "\<exists>w'. checkConnection (\<lambda>i a. if a = ''10.0.0.2:9876'' then None else Some ''connection refused'')
          fixture (Some 1) = Inr w' \<and>
        IsConnected w' (Some 1) = Inr True \<and>
        trace w' =
          [DialTimeout ''tcp'' ''10.0.0.1:9876'' 3,
           LogDebug ''RocketMQ NameServer probe failed'' [''10.0.0.1:9876'', ''10.0.0.2:9876'']
             ''connection refused'',
           DialTimeout ''tcp'' ''10.0.0.2:9876'' 3, ConnClose ''10.0.0.2:9876'']"
  using checkConnection_probes [OF fixture_cms_1,
      of "\<lambda>i a. if a = ''10.0.0.2:9876'' then None else Some ''connection refused''"]
  by (auto simp: fixture_trace nameServerProbeTimeout_def le_Suc_eq All_less_Suc)


text \<open>
  C3. With an empty address list, one probe cycle sets \<open>connected\<close> to true whatever it
  was before, and adds nothing to the trace: no dial is made.
\<close>

theorem checkConnection_empty:
  assumes "cms w c = Some cm" and "nameServerAddrs cm = []"
  shows "checkConnection dial w (Some c) = Inr (store_cm c (cm\<lparr>connected := True\<rparr>) w) \<and>
         trace (store_cm c (cm\<lparr>connected := True\<rparr>) w) = trace w \<and>
         IsConnected (store_cm c (cm\<lparr>connected := True\<rparr>) w) (Some c) = Inr True"
  using assms
  by (simp add: checkConnection_def IsConnected_def)

theorem checkConnection_empty_witness:
  "\<exists>w'. checkConnection (\<lambda>i a. Some ''connection refused'') fixture_empty (Some 0) = Inr w' \<and>
        trace w' = trace fixture_empty \<and> IsConnected w' (Some 0) = Inr True"
  using checkConnection_empty [OF fixture_empty_cms_0, of "\<lambda>i a. Some ''connection refused''"]
  by simp

section \<open>Forced reconnection\<close>

text \<open>
  C5. From every store, \<open>ForceReconnect\<close> sets the connectivity flag to false and calls
  the reconnection counter exactly once. It dials nothing, and leaves the address list,
  the stop channel, the health checker pointer and the metrics pointer of the manager,
  all other managers and all health checkers as they were.
\<close>

theorem ForceReconnect_effect:
  assumes "cms w c = Some cm"
  shows "\<exists>w' cm' evs. ForceReconnect w (Some c) = Inr w' \<and>
           IsConnected w' (Some c) = Inr False \<and>
           cms w' = (cms w)(c \<mapsto> cm') \<and> cm' = cm\<lparr>connected := False\<rparr> \<and>
           nameServerAddrs cm' = nameServerAddrs cm \<and> cm_stopCh cm' = cm_stopCh cm \<and>
           healthChecker cm' = healthChecker cm \<and> cm_metrics cm' = cm_metrics cm \<and>
           hcs w' = hcs w \<and> next_ref w' = next_ref w \<and>
           trace w' = trace w @ evs \<and>
           filter is_IncrementReconnectionCount evs = [IncrementReconnectionCount (cm_metrics cm)] \<and>
           filter is_DialTimeout evs = []"
  using assms by (simp add: ForceReconnect_def IsConnected_def)

theorem ForceReconnect_effect_witness:
  "\<exists>w'. ForceReconnect fixture (Some 1) = Inr w' \<and> IsConnected w' (Some 1) = Inr False \<and>
        filter is_IncrementReconnectionCount (trace w') = [IncrementReconnectionCount (Some 9)] \<and>
        filter is_DialTimeout (trace w') = []"
  using ForceReconnect_effect [OF fixture_cms_1]
  by (auto simp: fixture_trace)

section \<open>Stopping\<close>




subsection \<open>Closed stop channels stay closed\<close>

























section \<open>Stopping while a check cycle runs\<close>

text \<open>A call that runs alone, with no mutex held, does what the sequential definition does.\<close>

lemma run_call_Stop:
  assumes "ConnectionManager_Stop w r = Inr w'"
  shows "run_call 2 (unlocked w) (Stop_Lock r) = (unlocked w', Returned)"
  using assms
  by (cases r)
    (auto simp: numeral_2_eq_2 unlocked_def unlock_cm_def ConnectionManager_Stop_def
      HealthChecker_Stop_def load_hc_def
      split: option.splits chan.splits sum.splits)

lemma const_False_upd [simp]: "(\<lambda>k. False)(h := False) = (\<lambda>k. False)"
  by (rule ext) simp

lemma run_call_Suc:
  "run_call n s t = (u, Returned) \<Longrightarrow> run_call (Suc n) s t = (u, Returned)"
proof (induction n arbitrary: s t)
  case 0
  then show ?case by simp
next
  case (Suc n)
  show ?case
  proof (cases "step s t")
    case None
    with Suc.prems show ?thesis by simp
  next
    case (Some p)
    obtain s' t' where p: "p = (s', t')" by (cases p)
    with Some Suc.prems have "run_call n s' t' = (u, Returned)" by simp
    from Suc.IH [OF this] Some p show ?thesis by simp
  qed
qed

lemma report_step_agrees:
  assumes "report w h hc = Inr w'"
    and "report_step \<lparr>world_of = store_hc h hc0 w, cm_mu = (\<lambda>c. False),
                       hc_mu = (\<lambda>k. False)(h := True)\<rparr> h hc = (s', t')"
  shows "run_call (Suc 0) s' t' = (unlocked w', Returned)"
proof (cases "healthy hc")
  case True
  with assms show ?thesis
    by (auto simp: report_def report_step_def unlocked_def unlock_hc_def emit_def store_hc_def)
next
  case False
  show ?thesis
  proof (cases "connMgr hc")
    case None
    with False assms show ?thesis
      by (auto simp: report_def report_step_def connMgr_connected_def unlocked_def unlock_hc_def
          emit_def store_hc_def)
  next
    case (Some c)
    with False assms obtain cm where cm: "cms w c = Some cm"
      by (auto simp: report_def connMgr_connected_def IsConnected_def split: option.splits)
    with False Some assms show ?thesis
      by (auto simp: report_def report_step_def connMgr_connected_def IsConnected_def unlocked_def
          unlock_hc_def emit_def store_hc_def)
  qed
qed

lemma run_call_Check:
  assumes "performHealthCheck now w r = Inr w'"
  shows "run_call 3 (unlocked w) (Check_Lock now r) = (unlocked w', Returned)"
proof -
  from assms obtain h hc0 where r: "r = Some h" and hc0: "hcs w h = Some hc0"
    by (cases r) (auto simp: performHealthCheck_def split: option.splits)
  define hc where "hc = hc0\<lparr>lastCheck := now\<rparr>"
  define w2 where "w2 = emit [UpdateLastHealthCheck (hc_metrics hc)]
                          (emit [IncrementHealthCheckCount (hc_metrics hc0)] w)"
  define s2 where "s2 = \<lparr>world_of = store_hc h hc w2, cm_mu = (\<lambda>c. False),
                          hc_mu = (\<lambda>k. False)(h := True)\<rparr>"
  have seq: "performHealthCheck now w r =
               (case has_nameServerAddrs w2 hc of
                  Inl p \<Rightarrow> Inl p
                | Inr True \<Rightarrow>
                    (case IsConnected w2 (connMgr hc) of
                       Inl p \<Rightarrow> Inl p
                     | Inr b \<Rightarrow> report w2 h (hc\<lparr>healthy := b\<rparr>))
                | Inr False \<Rightarrow>
                    if sint (errorCount hc) < 5 then report w2 h (hc\<lparr>healthy := True\<rparr>)
                    else report w2 h (hc\<lparr>healthy := False\<rparr>))"
    using hc0
    by (simp add: performHealthCheck_def r hc_def w2_def Let_def
        cong: sum.case_cong bool.case_cong if_cong)
  have st: "step (unlocked w) (Check_Lock now r) =
              (case has_nameServerAddrs w2 hc of
                 Inl p \<Rightarrow> Some (unlock_hc h s2, Panicked p)
               | Inr True \<Rightarrow> Some (s2, Check_IsConnected h (connMgr hc))
               | Inr False \<Rightarrow>
                   if sint (errorCount hc) < 5 then Some (report_step s2 h (hc\<lparr>healthy := True\<rparr>))
                   else Some (report_step s2 h (hc\<lparr>healthy := False\<rparr>)))"
    using hc0
    by (simp add: r unlocked_def hc_def w2_def s2_def Let_def
        cong: sum.case_cong bool.case_cong if_cong)
  have R: "run_call (Suc 0) s' t' = (unlocked w', Returned)"
    if "report w2 h k = Inr w'" and "report_step s2 h k = (s', t')" for k s' t'
    using report_step_agrees [OF that(1)] that(2) unfolding s2_def by blast
  show ?thesis
  proof (cases "has_nameServerAddrs w2 hc")
    case (Inl p)
    with assms seq show ?thesis by simp
  next
    case (Inr a)
    show ?thesis
    proof (cases a)
      case False
      define k where "k = hc\<lparr>healthy := sint (errorCount hc) < 5\<rparr>"
      obtain s' t' where rs: "report_step s2 h k = (s', t')" by (cases "report_step s2 h k")
      from Inr False assms seq have "report w2 h k = Inr w'"
        by (simp add: k_def split: if_splits)
      from run_call_Suc [OF R [OF this rs]]
      have 2: "run_call (Suc (Suc 0)) s' t' = (unlocked w', Returned)" .
      have "step (unlocked w) (Check_Lock now r) = Some (s', t')"
        using Inr False rs
        by (cases "sint (errorCount hc) < 5") (simp_all add: st k_def del: step.simps)
      then show ?thesis
        using 2 by (simp add: numeral_3_eq_3 del: step.simps)
    next
      case True
      with Inr obtain c cm where c: "connMgr hc = Some c" and cm: "cms w2 c = Some cm"
        by (auto simp: has_nameServerAddrs_def split: option.splits)
      define k where "k = hc\<lparr>healthy := connected cm\<rparr>"
      obtain s' t' where rs: "report_step s2 h k = (s', t')" by (cases "report_step s2 h k")
      from Inr True assms seq c cm have "report w2 h k = Inr w'"
        by (simp add: IsConnected_def k_def)
      note 1 = R [OF this rs]
      have a: "step (unlocked w) (Check_Lock now r) = Some (s2, Check_IsConnected h (Some c))"
        using Inr True c by (simp add: st del: step.simps)
      have b: "step s2 (Check_IsConnected h (Some c)) = Some (s', t')"
        using cm rs by (simp add: s2_def k_def)
      show ?thesis
        using a b 1 by (simp add: numeral_3_eq_3 del: step.simps)
    qed
  qed
qed

text \<open>
  C7. The first \<open>Stop\<close> of a manager does not always stop the checker it owns. In
  \<open>fixture\<close>, a check cycle of the owned checker takes \<^verbatim>\<open>hc.mu\<close> and reaches its call
  of \<^verbatim>\<open>IsConnected\<close>; \<open>Stop\<close> of the manager then takes \<^verbatim>\<open>cm.mu\<close>, closes the
  manager's stop channel and reaches \<^verbatim>\<open>hc.Stop\<close>. Now \<open>Stop\<close> waits for \<^verbatim>\<open>hc.mu\<close>
  and the cycle waits for \<^verbatim>\<open>cm.mu\<close>: neither call has a step, so neither mutex is ever
  released, while the checker's stop channel is open and its ticker is not stopped.
\<close>

theorem Stop_blocks_behind_check:
  "\<exists>s1 s2.
     step (unlocked fixture) (Check_Lock 130 (Some 2)) = Some (s1, Check_IsConnected 2 (Some 1)) \<and>
     step s1 (Stop_Lock (Some 1)) = Some (s2, Stop_healthChecker_Stop 1 (Some 2)) \<and>
     step s2 (Stop_healthChecker_Stop 1 (Some 2)) = None \<and>
     step s2 (Check_IsConnected 2 (Some 1)) = None \<and>
     map_option cm_stopCh (cms (world_of s2) 1) = Some Closed \<and>
     map_option hc_stopCh (hcs (world_of s2) 2) = Some Open \<and>
     map_option checkTicker (hcs (world_of s2) 2) = Some (Some (Ticker 10 False))"
  by (simp add: unlocked_def fixture_hcs_2 fixture_cms_1 has_nameServerAddrs_def Let_def)

section \<open>The error count\<close>

text \<open>
  C9. In every store that a script of constructor calls, starts, stops, probe cycles,
  check cycles, forced reconnections and accessor calls builds, the error count of every
  health checker is 0 and \<open>GetErrorCount\<close> returns 0; hence a check cycle on the
  fallback branch (no manager, or no addresses) gives the verdict healthy.
\<close>

theorem errorCount_stays_zero:
  assumes "run_ops empty_world xs = Inr w" and "hcs w h = Some hc"
  shows "errorCount hc = 0 \<and> GetErrorCount w (Some h) = Inr 0 \<and>
         (has_nameServerAddrs w hc = Inr False \<longrightarrow>
            (\<exists>w'. performHealthCheck now w (Some h) = Inr w' \<and> IsHealthy w' (Some h) = Inr True))"
proof -
  have wf: "wf_world w" by (rule reachable_wf [OF assms(1)])
  from wf_hcD [OF wf assms(2)] have 0: "errorCount hc = 0"
    by (simp add: wf_hc_def)
  have "\<exists>w'. performHealthCheck now w (Some h) = Inr w' \<and> IsHealthy w' (Some h) = Inr True"
    if "has_nameServerAddrs w hc = Inr False"
  proof (cases "connMgr hc")
    case None
    with assms(2) 0 show ?thesis
      by (simp add: performHealthCheck_unbound IsHealthy_def)
  next
    case (Some c)
    with that obtain cm where cm: "cms w c = Some cm" and "nameServerAddrs cm = []"
      by (auto simp: has_nameServerAddrs_def split: option.splits)
    with assms(2) 0 Some show ?thesis
      by (simp add: performHealthCheck_bound IsHealthy_def)
  qed
  with 0 assms(2) show ?thesis
    by (simp add: GetErrorCount_def)
qed

theorem errorCount_stays_zero_witness:
  "GetErrorCount fixture_empty (Some 1) = Inr 0 \<and>
   (\<exists>w'. performHealthCheck 130 fixture_empty (Some 1) = Inr w' \<and> IsHealthy w' (Some 1) = Inr True)"
  using errorCount_stays_zero [OF fixture_empty_script fixture_empty_hcs_1, of 130]
  by (simp add: has_nameServerAddrs_def fixture_empty_cms_0)

section \<open>Before the first cycle\<close>

text \<open>
  C10. Right after construction \<open>IsConnected\<close> and \<open>IsHealthy\<close> return false, for a
  manager with its own checker and for a checker made alone. On the fallback branch (a
  checker with no manager, or a manager without addresses) the first check cycle then
  turns \<open>IsHealthy\<close> to true.
\<close>

theorem unhealthy_until_first_cycle:
  "(case NewConnectionManager now w m addrs of
      (w1, c) \<Rightarrow>
        IsConnected w1 (Some c) = Inr False \<and>
        (\<exists>h. GetHealthChecker w1 (Some c) = Inr (Some h) \<and> IsHealthy w1 (Some h) = Inr False)) \<and>
   (case NewHealthChecker now w m cmr of (w1, h) \<Rightarrow> IsHealthy w1 (Some h) = Inr False) \<and>
   (case NewHealthChecker now w m None of
      (w1, h) \<Rightarrow>
        IsHealthy w1 (Some h) = Inr False \<and>
        (\<exists>w2. performHealthCheck later w1 (Some h) = Inr w2 \<and> IsHealthy w2 (Some h) = Inr True)) \<and>
   (case NewConnectionManager now w m [] of
      (w1, c) \<Rightarrow>
        (\<exists>h w2. GetHealthChecker w1 (Some c) = Inr (Some h) \<and> IsHealthy w1 (Some h) = Inr False \<and>
           performHealthCheck later w1 (Some h) = Inr w2 \<and> IsHealthy w2 (Some h) = Inr True))"
proof -
  let ?hc = "\<lambda>r. \<lparr>hc_metrics = m, connMgr = r, healthy = False, lastCheck = now,
              errorCount = 0, hc_stopCh = Open, checkTicker = Some (Ticker 10 False)\<rparr>"
  have A: "NewHealthChecker now w m r =
             (store_hc (next_ref w) (?hc r) (w\<lparr>next_ref := Suc (next_ref w)\<rparr>), next_ref w)" for r
    by (simp add: NewHealthChecker_def Let_def)
  let ?cm = "\<lambda>as. \<lparr>cm_metrics = m, healthChecker = Some (Suc (next_ref w)), nameServerAddrs = as,
              connected = False, cm_stopCh = Open\<rparr>"
  have B: "NewConnectionManager now w m as =
             (store_cm (next_ref w) (?cm as)
                (store_hc (Suc (next_ref w)) (?hc (Some (next_ref w)))
                   (w\<lparr>next_ref := Suc (Suc (next_ref w))\<rparr>)), next_ref w)" for as
    by (simp add: NewConnectionManager_def NewHealthChecker_def Let_def store_cm_def store_hc_def)
  have 1: "IsConnected (fst (NewConnectionManager now w m as)) (Some (next_ref w)) = Inr False" for as
    by (simp add: B IsConnected_def)
  have 2: "GetHealthChecker (fst (NewConnectionManager now w m as)) (Some (next_ref w)) =
             Inr (Some (Suc (next_ref w)))" for as
    by (simp add: B GetHealthChecker_def)
  have 3: "IsHealthy (fst (NewConnectionManager now w m as)) (Some (Suc (next_ref w))) = Inr False" for as
    by (simp add: B IsHealthy_def)
  have 4: "IsHealthy (fst (NewHealthChecker now w m r)) (Some (next_ref w)) = Inr False" for r
    by (simp add: A IsHealthy_def)
  have 5: "\<exists>w2. performHealthCheck later (fst (NewHealthChecker now w m None)) (Some (next_ref w)) = Inr w2 \<and>
             IsHealthy w2 (Some (next_ref w)) = Inr True"
    by (subst performHealthCheck_unbound [where hc = "?hc None"]) (simp_all add: A IsHealthy_def)
  have 6: "\<exists>w2. performHealthCheck later (fst (NewConnectionManager now w m [])) (Some (Suc (next_ref w))) = Inr w2 \<and>
             IsHealthy w2 (Some (Suc (next_ref w))) = Inr True"
    by (subst performHealthCheck_bound [where hc = "?hc (Some (next_ref w))" and cm = "?cm []"
          and c = "next_ref w"]) (simp_all add: B IsHealthy_def)
  show ?thesis
    using 1 2 3 4 5 6 by (simp add: A B split: prod.splits) 
qed


end
